theory Spec2Isabelle
  imports Complex_Main "HOL-Library.Sublist" "HOL-Library.Log_Nat"
begin

section \<open>Data model of \<open>learning-journey.tsx\<close>\<close>

text \<open>
  \<^verbatim>\<open>type VideoBlock = { title: string; url: string; caption?: string }\<close> and
  \<^verbatim>\<open>type BlockEntry = { id; date; rawDate; title; kind: "text" | "video"; content; video? }\<close>.
  The field \<open>id\<close> is written \<open>id_entry\<close>, since \<open>id\<close> is the identity function of HOL,
  and the fields of the video block carry the suffix \<open>_video\<close>.
\<close>

record VideoBlock =
  title_video :: string
  url_video :: string
  caption_video :: "string option"

datatype kind = Text | Video

record BlockEntry =
  id_entry :: string
  date :: string
  rawDate :: string
  title :: string
  kind :: kind
  content :: string
  video :: "VideoBlock option"

section \<open>The mapper: \<open>uniqueDates\<close>\<close>

text \<open>
  \<^verbatim>\<open>const seen = new Set<string>();
  return entries.filter((entry) => {
    if (seen.has(entry.date)) return false;
    seen.add(entry.date);
    return true;
  });\<close>
  The callback mutates the set \<open>seen\<close> between the calls that \<open>filter\<close> makes from left
  to right; the set is threaded through the recursion.
\<close>

fun uniqueDates_filter :: "string set \<Rightarrow> BlockEntry list \<Rightarrow> BlockEntry list" where
  "uniqueDates_filter seen [] = []"
| "uniqueDates_filter seen (entry # entries) =
     (if date entry \<in> seen then uniqueDates_filter seen entries
      else entry # uniqueDates_filter (insert (date entry) seen) entries)"

definition uniqueDates :: "BlockEntry list \<Rightarrow> BlockEntry list" where
  "uniqueDates entries = uniqueDates_filter {} entries"

text \<open>
  The specification's wording of the same sequence: the entries at those positions of the
  input where the display date has not occurred at an earlier position, in input order.
\<close>

definition first_occurrence :: "BlockEntry list \<Rightarrow> nat \<Rightarrow> bool" where
  "first_occurrence entries i \<longleftrightarrow> date (entries ! i) \<notin> set (map date (take i entries))"

definition spec_uniqueDates :: "BlockEntry list \<Rightarrow> BlockEntry list" where
  "spec_uniqueDates entries =
     map (\<lambda>i. entries ! i) (filter (first_occurrence entries) [0..<length entries])"

section \<open>JavaScript numbers\<close>

text \<open>
  A JavaScript number is an IEEE 754 binary64 value. The model has \<open>NaN\<close>, the two
  infinities (\<open>Infinity True\<close> is the negative one) and the finite values as rationals;
  the two zeros are one value, \<open>Finite 0\<close> (\<open>===\<close> and the conversion to a string do not
  tell them apart; a zero divisor counts as \<open>+0\<close>, and \<open>positions\<close> never divides by
  zero, since it tests \<^verbatim>\<open>range === 0\<close> first). Each
  arithmetic operation computes the exact result and rounds it to the nearest value with
  a 53-bit significand, ties to even (\<open>fl\<close>). The exponent range is not bounded in the
  model: the time value of a \<open>Date\<close> is an integer of magnitude at most \<open>8.64e15\<close>, so
  the differences, quotients and products that \<open>positions\<close> computes stay between
  \<open>1e-17\<close> and \<open>1e19\<close> in magnitude, far from overflow and underflow.
\<close>

datatype number = NaN | Finite rat | Infinity bool

definition round_half_even :: "rat \<Rightarrow> int" where
  "round_half_even x =
     (let n = \<lfloor>x\<rfloor>; r = x - of_int n
      in if r < 1 / 2 then n else if 1 / 2 < r then n + 1 else if even n then n else n + 1)"

text \<open>The exponent \<open>b\<close> with \<open>2 powi b \<le> \<bar>x\<bar> < 2 powi (b + 1)\<close>, for \<open>x \<noteq> 0\<close>.\<close>

definition binade :: "rat \<Rightarrow> int" where
  "binade x =
     (let (p, q) = quotient_of \<bar>x\<bar>; k = bitlen p - bitlen q
      in if 2 powi k \<le> \<bar>x\<bar> then k else k - 1)"

definition fl :: "rat \<Rightarrow> rat" where
  "fl x =
     (if x = 0 then 0
      else let e = binade x - 52
           in sgn x * (of_int (round_half_even (\<bar>x\<bar> / 2 powi e)) * 2 powi e))"

fun number_sub :: "number \<Rightarrow> number \<Rightarrow> number" where
  "number_sub (Finite a) (Finite b) = Finite (fl (a - b))"
| "number_sub (Infinity s) (Finite b) = Infinity s"
| "number_sub (Finite a) (Infinity t) = Infinity (\<not> t)"
| "number_sub (Infinity s) (Infinity t) = (if s = t then NaN else Infinity s)"
| "number_sub _ _ = NaN"

fun number_div :: "number \<Rightarrow> number \<Rightarrow> number" where
  "number_div (Finite a) (Finite b) =
     (if b = 0 then (if a = 0 then NaN else Infinity (a < 0)) else Finite (fl (a / b)))"
| "number_div (Infinity s) (Finite b) = Infinity (s \<noteq> (b < 0))"
| "number_div (Finite a) (Infinity t) = Finite 0"
| "number_div _ _ = NaN"

fun number_mul :: "number \<Rightarrow> number \<Rightarrow> number" where
  "number_mul (Finite a) (Finite b) = Finite (fl (a * b))"
| "number_mul (Infinity s) (Finite b) = (if b = 0 then NaN else Infinity (s \<noteq> (b < 0)))"
| "number_mul (Finite a) (Infinity t) = (if a = 0 then NaN else Infinity (t \<noteq> (a < 0)))"
| "number_mul (Infinity s) (Infinity t) = Infinity (s \<noteq> t)"
| "number_mul _ _ = NaN"

text \<open>\<^verbatim>\<open>a === b\<close> on numbers: \<open>NaN\<close> equals nothing, not even itself.\<close>

fun strict_equals :: "number \<Rightarrow> number \<Rightarrow> bool" where
  "strict_equals NaN _ = False"
| "strict_equals _ NaN = False"
| "strict_equals a b = (a = b)"

text \<open>\<^verbatim>\<open>a <= b\<close> on numbers: false when either side is \<open>NaN\<close>.\<close>

fun less_equals :: "number \<Rightarrow> number \<Rightarrow> bool" where
  "less_equals (Finite a) (Finite b) = (a \<le> b)"
| "less_equals (Infinity s) (Finite b) = s"
| "less_equals (Finite a) (Infinity t) = (\<not> t)"
| "less_equals (Infinity s) (Infinity t) = (s \<or> \<not> t)"
| "less_equals _ _ = False"

text \<open>\<^verbatim>\<open>xs[i]\<close> on an array: \<open>undefined\<close> (here \<open>None\<close>) out of range.\<close>

definition array_index :: "'a list \<Rightarrow> nat \<Rightarrow> 'a option" where
  "array_index xs i = (if i < length xs then Some (xs ! i) else None)"

section \<open>The mapper: \<open>positions\<close>\<close>

text \<open>
  \<^verbatim>\<open>if (uniqueDates.length === 0) return [];
  const start = new Date(uniqueDates[0].rawDate).getTime();
  const end = new Date(uniqueDates[uniqueDates.length - 1].rawDate).getTime();
  const range = end - start;
  return uniqueDates.map((entry) => {
    if (range === 0) return 0;
    return ((new Date(entry.rawDate).getTime() - start) / range) * 100;
  });\<close>
  The parameter \<open>getTime\<close> stands for \<^verbatim>\<open>(s) => new Date(s).getTime()\<close> of the runtime:
  the time value of the parsed string, \<open>NaN\<close> when the string does not parse. The two
  indexed reads are in range, since the list is not empty there.
\<close>

definition positions :: "(string \<Rightarrow> number) \<Rightarrow> BlockEntry list \<Rightarrow> number list" where
  "positions getTime unique =
     (if length unique = 0 then []
      else
        let start = getTime (rawDate (unique ! 0));
            end' = getTime (rawDate (unique ! (length unique - 1)));
            range = number_sub end' start
        in map (\<lambda>entry.
                 if strict_equals range (Finite 0) then Finite 0
                 else number_mul
                        (number_div (number_sub (getTime (rawDate entry)) start) range)
                        (Finite 100))
             unique)"

text \<open>
  The specification's wording: \<open>start\<close> is the timestamp of the first element of the
  unique dates, \<open>end\<close> that of the last, \<open>range = end - start\<close>, and
  \<open>position = range == 0 ? 0 : (timestamp(entry) - start) / range * 100\<close>.
\<close>

definition spec_position :: "(string \<Rightarrow> number) \<Rightarrow> BlockEntry list \<Rightarrow> BlockEntry \<Rightarrow> number" where
  "spec_position getTime unique entry =
     (let start = getTime (rawDate (hd unique));
          range = number_sub (getTime (rawDate (last unique))) start
      in if strict_equals range (Finite 0) then Finite 0
         else number_mul (number_div (number_sub (getTime (rawDate entry)) start) range)
                (Finite 100))"

section \<open>The navigator: \<open>Timeline\<close>\<close>

text \<open>
  What \<open>Timeline\<close> renders for one element of \<open>uniqueDates\<close>: the key, the \<open>top\<close> of
  the style (\<^verbatim>\<open>positions[index]\<close>, as a percentage), whether the tooltip has the visible
  classes (\<^verbatim>\<open>hoveredIndex === index\<close>), the tooltip's text, and the argument that the
  button's \<open>onClick\<close> passes to \<open>onScrollTo\<close>.
\<close>

record tick =
  tick_key :: string
  tick_top :: "number option"
  tooltip_active :: bool
  tooltip_text :: string
  button_target :: string

definition Timeline :: "(string \<Rightarrow> number) \<Rightarrow> BlockEntry list \<Rightarrow> nat option \<Rightarrow> tick list" where
  "Timeline getTime entries hoveredIndex =
     (let unique = uniqueDates entries; pos = positions getTime unique
      in map (\<lambda>(index, entry).
               \<lparr>tick_key = id_entry entry,
                tick_top = array_index pos index,
                tooltip_active = (hoveredIndex = Some index),
                tooltip_text = date entry,
                button_target = id_entry entry\<rparr>)
           (enumerate 0 unique))"

text \<open>
  \<^verbatim>\<open>const [hoveredIndex, setHoveredIndex] = React.useState<number | null>(null)\<close>: the
  only state of the component. The events are those of the handlers that a rendered tick
  carries: \<^verbatim>\<open>onMouseEnter={() => setHoveredIndex(index)}\<close>,
  \<^verbatim>\<open>onMouseLeave={() => setHoveredIndex(null)}\<close> and
  \<^verbatim>\<open>onClick={() => onScrollTo(entry.id)}\<close>. An event carries the index of the tick it
  is dispatched to; there is no handler, and so no effect, where no tick is rendered.
  A step returns the next \<open>hoveredIndex\<close> and the arguments of the calls of \<open>onScrollTo\<close>
  that it made, in order.
\<close>

definition initial_hoveredIndex :: "nat option" where
  "initial_hoveredIndex = None"

datatype event = MouseEnter nat | MouseLeave nat | Click nat

fun dispatch :: "tick list \<Rightarrow> nat option \<Rightarrow> event \<Rightarrow> nat option \<times> string list" where
  "dispatch ticks hoveredIndex (MouseEnter index) =
     (if index < length ticks then (Some index, []) else (hoveredIndex, []))"
| "dispatch ticks hoveredIndex (MouseLeave index) =
     (if index < length ticks then (None, []) else (hoveredIndex, []))"
| "dispatch ticks hoveredIndex (Click index) =
     (if index < length ticks then (hoveredIndex, [button_target (ticks ! index)])
      else (hoveredIndex, []))"

text \<open>A run of events, each dispatched to the ticks rendered for the state it finds.\<close>

fun run :: "(string \<Rightarrow> number) \<Rightarrow> BlockEntry list \<Rightarrow> nat option \<Rightarrow> event list
    \<Rightarrow> nat option \<times> string list" where
  "run getTime entries hoveredIndex [] = (hoveredIndex, [])"
| "run getTime entries hoveredIndex (ev # evs) =
     (let (hoveredIndex', calls) = dispatch (Timeline getTime entries hoveredIndex) hoveredIndex ev;
          (hoveredIndex'', calls') = run getTime entries hoveredIndex' evs
      in (hoveredIndex'', calls @ calls'))"

section \<open>The renderer: the articles of \<open>LearningJourney\<close>\<close>

text \<open>
  \<^verbatim>\<open>entries.map((entry) => <article id={entry.id} key={entry.id}> ... </article>)\<close>:
  one article per element of \<open>entries\<close>, showing the date, the title, the content and,
  when \<open>entry.video\<close> is present, a video card.
\<close>

record article =
  article_id :: string
  article_key :: string
  article_date :: string
  article_title :: string
  article_html :: string
  article_video :: "VideoBlock option"

definition render_article :: "BlockEntry \<Rightarrow> article" where
  "render_article entry =
     \<lparr>article_id = id_entry entry, article_key = id_entry entry,
      article_date = date entry, article_title = title entry,
      article_html = content entry, article_video = video entry\<rparr>"

definition render_articles :: "BlockEntry list \<Rightarrow> article list" where
  "render_articles entries = map render_article entries"

section \<open>\<open>handleScrollTo\<close>\<close>

text \<open>
  \<^verbatim>\<open>const element = document.getElementById(id);
  if (element && scrollRef.current) {
    element.scrollIntoView({ behavior: "smooth", block: "start" });
  }\<close>
  The document is the list of all its elements in document order, those of the host page
  as well as the articles, each with its \<open>id\<close> attribute (the empty string for an element
  without one); \<open>getElementById\<close> searches the whole document and gives the first
  element with the id, or \<open>null\<close> (\<open>None\<close>), and it gives \<open>null\<close> for the empty id. Calling a method on \<open>null\<close> throws a \<open>TypeError\<close>: \<open>scrollIntoView\<close> takes
  the nullable element, so that the guard of the source is what keeps the call safe. The
  result is the exception thrown, or the list of the scrolls performed (each with the
  options \<open>smooth\<close> and \<open>start\<close> of the source).
\<close>

record element =
  element_id :: string

datatype error = TypeError

datatype scroll = ScrollIntoView element string string

definition getElementById :: "element list \<Rightarrow> string \<Rightarrow> element option" where
  "getElementById document i =
     (if i = [] then None else find (\<lambda>el. element_id el = i) document)"

definition scrollIntoView :: "element option \<Rightarrow> string \<Rightarrow> string \<Rightarrow> error + scroll list" where
  "scrollIntoView element behavior block =
     (case element of None \<Rightarrow> Inl TypeError | Some el \<Rightarrow> Inr [ScrollIntoView el behavior block])"

definition handleScrollTo :: "element list \<Rightarrow> 'r option \<Rightarrow> string \<Rightarrow> error + scroll list" where
  "handleScrollTo document scrollRef_current i =
     (let element = getElementById document i
      in if element \<noteq> None \<and> scrollRef_current \<noteq> None
         then scrollIntoView element ''smooth'' ''start''
         else Inr [])"

text \<open>The elements that the articles of \<open>LearningJourney\<close> put into the document.\<close>

definition article_elements :: "BlockEntry list \<Rightarrow> element list" where
  "article_elements entries = map (\<lambda>a. \<lparr>element_id = article_id a\<rparr>) (render_articles entries)"

text \<open>
  A document in which the articles follow an element of the host page with the id
  \<open>root\<close>.
\<close>

definition host_document :: "BlockEntry list \<Rightarrow> element list" where
  "host_document entries = \<lparr>element_id = ''root''\<rparr> # article_elements entries"

section \<open>Time values of date-only strings\<close>

text \<open>
  \<open>Date\<close> belongs to the runtime, not to the repository, and the development takes it as
  the parameter \<open>getTime\<close>. The worked example of the specification needs the time values
  of three strings, so the date-only form \<open>YYYY-MM-DD\<close> of the ECMAScript date-time string
  format is written out here: such a string is read as midnight UTC, and its time value is
  \<open>MakeDay(year, month, day) * msPerDay\<close>, with \<open>DayFromYear\<close> and the lengths of the
  months as ECMAScript defines them. Strings of every other form, and
  days past the end of their month, are outside this model (the runtime may parse them or
  roll them over); it gives them \<open>NaN\<close>, and no theorem reads it there.
\<close>

definition InLeapYear :: "int \<Rightarrow> bool" where
  "InLeapYear y =
     (if y mod 4 \<noteq> 0 then False
      else if y mod 100 \<noteq> 0 then True
      else if y mod 400 \<noteq> 0 then False
      else True)"

definition DayFromYear :: "int \<Rightarrow> int" where
  "DayFromYear y =
     365 * (y - 1970) + (y - 1969) div 4 - (y - 1901) div 100 + (y - 1601) div 400"

definition DaysInMonth :: "int \<Rightarrow> nat \<Rightarrow> int" where
  "DaysInMonth y m =
     (if m = 2 then (if InLeapYear y then 29 else 28)
      else if m \<in> {4, 6, 9, 11} then 30 else 31)"

definition MakeDay :: "int \<Rightarrow> nat \<Rightarrow> int \<Rightarrow> int" where
  "MakeDay y m d = DayFromYear y + (\<Sum>k \<leftarrow> [1..<m]. DaysInMonth y k) + d - 1"

definition msPerDay :: int where
  "msPerDay = 86400000"

definition digit_value :: "char \<Rightarrow> nat option" where
  "digit_value c =
     (let n = (of_char c :: nat) in if 48 \<le> n \<and> n \<le> 57 then Some (n - 48) else None)"

fun decimal_from :: "nat \<Rightarrow> string \<Rightarrow> nat option" where
  "decimal_from acc [] = Some acc"
| "decimal_from acc (c # cs) =
     (case digit_value c of None \<Rightarrow> None | Some d \<Rightarrow> decimal_from (10 * acc + d) cs)"

definition Date_getTime :: "string \<Rightarrow> number" where
  "Date_getTime s =
     (if length s = 10 \<and> s ! 4 = CHR ''-'' \<and> s ! 7 = CHR ''-'' then
        (case (decimal_from 0 (take 4 s), decimal_from 0 (take 2 (drop 5 s)),
               decimal_from 0 (drop 8 s)) of
           (Some y, Some m, Some d) \<Rightarrow>
             if 1 \<le> m \<and> m \<le> 12 \<and> 1 \<le> d \<and> int d \<le> DaysInMonth (int y) m
             then Finite (of_int (MakeDay (int y) m (int d) * msPerDay))
             else NaN
         | _ \<Rightarrow> NaN)
      else NaN)"

text \<open>
  The entries of the worked example: the ISO timestamps \<open>2024-01-01\<close>, \<open>2024-01-01\<close>,
  \<open>2024-07-01\<close> and \<open>2025-01-01\<close>, each with the display date of its day.
\<close>

definition example_entry :: "string \<Rightarrow> string \<Rightarrow> string \<Rightarrow> BlockEntry" where
  "example_entry i d r =
     \<lparr>id_entry = i, date = d, rawDate = r, title = ''t'', kind = Text, content = ''c'',
      video = None\<rparr>"

definition example_entries :: "BlockEntry list" where
  "example_entries =
     [example_entry ''e1'' ''2024.01.01'' ''2024-01-01'',
      example_entry ''e2'' ''2024.01.01'' ''2024-01-01'',
      example_entry ''e3'' ''2024.07.01'' ''2024-07-01'',
      example_entry ''e4'' ''2025.01.01'' ''2025-01-01'']"

text \<open>
  A value stated to one decimal place: the number is finite and within half a unit of
  that place of the stated value.
\<close>

fun approximately :: "number \<Rightarrow> rat \<Rightarrow> bool" where
  "approximately (Finite x) v = (\<bar>x - v\<bar> \<le> 1 / 20)"
| "approximately _ v = False"

text \<open>
  The caller's precondition on the timestamps: each parses to a point in time, and the
  entries are in chronological order.
\<close>

definition valid_time :: "number \<Rightarrow> bool" where
  "valid_time t = (case t of Finite x \<Rightarrow> True | _ \<Rightarrow> False)"

definition chronological :: "(string \<Rightarrow> number) \<Rightarrow> BlockEntry list \<Rightarrow> bool" where
  "chronological getTime entries \<longleftrightarrow>
     list_all (\<lambda>entry. valid_time (getTime (rawDate entry))) entries
     \<and> sorted_wrt (\<lambda>a b. less_equals (getTime (rawDate a)) (getTime (rawDate b))) entries"

text \<open>A position that is a percentage: finite, at least 0 and at most 100.\<close>

fun percent :: "number \<Rightarrow> bool" where
  "percent (Finite x) = (0 \<le> x \<and> x \<le> 100)"
| "percent _ = False"

text \<open>
  Two entries with different display dates and the same timestamp, and four entries with
  the display dates \<open>A\<close>, \<open>B\<close>, \<open>A\<close>, \<open>C\<close>.
\<close>

definition same_time_entries :: "BlockEntry list" where
  "same_time_entries =
     [example_entry ''e1'' ''2024.01.01'' ''2024-01-01'',
      example_entry ''e2'' ''2024.01.02'' ''2024-01-01'']"

definition abac_entries :: "BlockEntry list" where
  "abac_entries =
     [example_entry ''e1'' ''A'' ''2024-01-01'',
      example_entry ''e2'' ''B'' ''2024-02-01'',
      example_entry ''e3'' ''A'' ''2024-03-01'',
      example_entry ''e4'' ''C'' ''2024-04-01'']"

section \<open>Deduplication\<close>

lemma uniqueDates_filter_eq_filter:
  "uniqueDates_filter seen entries =
     map (\<lambda>i. entries ! i)
       (filter (\<lambda>i. date (entries ! i) \<notin> seen \<union> set (map date (take i entries)))
          [0..<length entries])"
proof (induction entries arbitrary: seen)
  case Nil
  show ?case by simp
next
  case (Cons entry entries)
  have shift: "[0..<length (entry # entries)] = 0 # map Suc [0..<length entries]"
    by (simp add: upt_conv_Cons map_Suc_upt del: upt_Suc)
  show ?case
  proof (cases "date entry \<in> seen")
    case True
    then have same: "(date d \<notin> seen \<and> date d \<noteq> date entry \<and> P) = (date d \<notin> seen \<and> P)" for d P
      by auto
    from True show ?thesis
      unfolding shift by (simp add: Cons.IH filter_map comp_def same)
  next
    case False
    then show ?thesis
      unfolding shift by (simp add: Cons.IH filter_map comp_def conj_commute conj_left_commute)
  qed
qed

lemma uniqueDates_filter_subseq: "subseq (uniqueDates_filter seen entries) entries"
  by (induction entries arbitrary: seen) auto

lemma uniqueDates_filter_dates:
  "set (map date (uniqueDates_filter seen entries)) = set (map date entries) - seen"
  by (induction entries arbitrary: seen) auto

lemma uniqueDates_filter_unseen:
  "entry \<in> set (uniqueDates_filter seen entries) \<Longrightarrow> date entry \<notin> seen"
  using uniqueDates_filter_dates [of seen entries] by auto

lemma uniqueDates_filter_distinct:
  "distinct (map date (uniqueDates_filter seen entries))"
  by (induction entries arbitrary: seen) (auto dest: uniqueDates_filter_unseen)

text \<open>
  Claim C2. For every entry list, \<open>uniqueDates\<close> is the subsequence of the input that
  holds exactly the first occurrence of each display date, in input order: it equals the
  specification's sequence, it is a subsequence of the input, no display date occurs twice
  in it, every display date of the input occurs in it, and entries with the dates
  \<open>[A, B, A, C]\<close> give the entries with the dates \<open>[A, B, C]\<close>.
\<close>

theorem uniqueDates_first_occurrences:
  "uniqueDates entries = spec_uniqueDates entries
   \<and> subseq (uniqueDates entries) entries
   \<and> distinct (map date (uniqueDates entries))
   \<and> set (map date (uniqueDates entries)) = set (map date entries)
   \<and> (date w = A \<and> date x = B \<and> date y = A \<and> date z = C
        \<and> A \<noteq> B \<and> A \<noteq> C \<and> B \<noteq> C
      \<longrightarrow> uniqueDates [w, x, y, z] = [w, x, z])"
proof -
  have "uniqueDates entries = spec_uniqueDates entries"
    unfolding uniqueDates_def spec_uniqueDates_def
    by (simp add: uniqueDates_filter_eq_filter first_occurrence_def [abs_def])
  moreover have "subseq (uniqueDates entries) entries"
    unfolding uniqueDates_def by (rule uniqueDates_filter_subseq)
  moreover have "distinct (map date (uniqueDates entries))"
    unfolding uniqueDates_def by (rule uniqueDates_filter_distinct)
  moreover have "set (map date (uniqueDates entries)) = set (map date entries)"
    unfolding uniqueDates_def by (simp only: uniqueDates_filter_dates Diff_empty)
  moreover have "date w = A \<and> date x = B \<and> date y = A \<and> date z = C
        \<and> A \<noteq> B \<and> A \<noteq> C \<and> B \<noteq> C
      \<longrightarrow> uniqueDates [w, x, y, z] = [w, x, z]"
    by (auto simp: uniqueDates_def)
  ultimately show ?thesis by blast
qed

text \<open>
  The witness of C2: the four entries with the dates \<open>A\<close>, \<open>B\<close>, \<open>A\<close>, \<open>C\<close>.
\<close>

theorem uniqueDates_first_occurrences_witness:
  "map id_entry (uniqueDates abac_entries) = [''e1'', ''e2'', ''e4'']
   \<and> map date (uniqueDates abac_entries) = [''A'', ''B'', ''C'']
   \<and> uniqueDates abac_entries = spec_uniqueDates abac_entries"
proof -
  let ?e1 = "example_entry ''e1'' ''A'' ''2024-01-01''"
  let ?e2 = "example_entry ''e2'' ''B'' ''2024-02-01''"
  let ?e3 = "example_entry ''e3'' ''A'' ''2024-03-01''"
  let ?e4 = "example_entry ''e4'' ''C'' ''2024-04-01''"
  have d: "date ?e1 = ''A'' \<and> date ?e2 = ''B'' \<and> date ?e3 = ''A'' \<and> date ?e4 = ''C''
      \<and> ''A'' \<noteq> ''B'' \<and> ''A'' \<noteq> ''C'' \<and> ''B'' \<noteq> ''C''"
    by (simp add: example_entry_def)
  note inst = uniqueDates_first_occurrences
    [where entries = abac_entries and w = "?e1" and x = "?e2" and y = "?e3"
       and z = "?e4" and A = "''A''" and B = "''B''" and C = "''C''"]
  from inst d have u: "uniqueDates [?e1, ?e2, ?e3, ?e4] = [?e1, ?e2, ?e4]" by blast
  from inst have s: "uniqueDates abac_entries = spec_uniqueDates abac_entries" by blast
  from u have "map id_entry (uniqueDates abac_entries) = [''e1'', ''e2'', ''e4'']"
    "map date (uniqueDates abac_entries) = [''A'', ''B'', ''C'']"
    by (simp_all add: abac_entries_def example_entry_def)
  with s show ?thesis by blast
qed

section \<open>Rounding to binary64\<close>

text \<open>
  The rounding is the identity on 0, 1 and 100, it is monotone, and it gives 0 only
  for 0: these are the facts about binary64 arithmetic that the positions depend on.
\<close>

lemma round_half_even_near:
  "of_int (round_half_even x) \<le> x + 1 / 2" "x - 1 / 2 \<le> of_int (round_half_even x)"
proof -
  have "of_int \<lfloor>x\<rfloor> \<le> x" "x < of_int \<lfloor>x\<rfloor> + 1" by linarith+
  then show "of_int (round_half_even x) \<le> x + 1 / 2" "x - 1 / 2 \<le> of_int (round_half_even x)"
    unfolding round_half_even_def Let_def by (simp_all split: if_splits; linarith)+
qed

lemma round_half_even_of_int: "round_half_even (of_int n) = n"
  by (simp add: round_half_even_def)

lemma round_half_even_mono:
  assumes "x \<le> y" shows "round_half_even x \<le> round_half_even y"
proof (rule ccontr)
  assume "\<not> ?thesis"
  then have "round_half_even y + 1 \<le> round_half_even x" by simp
  then have "(of_int (round_half_even y) :: rat) + 1 \<le> of_int (round_half_even x)"
    by (metis of_int_1 of_int_add of_int_le_iff)
  with round_half_even_near(1) [of x] round_half_even_near(2) [of y] assms
  have "x = y" by linarith
  with \<open>\<not> ?thesis\<close> show False by simp
qed

lemma bitlen_powi_bounds:
  assumes "0 < p"
  shows "(2::rat) powi (bitlen p - 1) \<le> of_int p" "of_int p < (2::rat) powi (bitlen p)"
proof -
  from assms have b: "1 \<le> bitlen p"
    using bitlen_eq_zero_iff [of p] bitlen_nonneg [of p] by linarith
  from bitlen_bounds [OF assms]
  have "(of_int (2 ^ nat (bitlen p - 1)) :: rat) \<le> of_int p" "(of_int p :: rat) < of_int (2 ^ nat (bitlen p))"
    by (simp_all only: of_int_le_iff of_int_less_iff)
  with b show "(2::rat) powi (bitlen p - 1) \<le> of_int p" "of_int p < (2::rat) powi (bitlen p)"
    by (simp_all add: power_int_def)
qed

lemma binade_bounds:
  assumes "x \<noteq> 0"
  shows "power_int 2 (binade x) \<le> \<bar>x\<bar>" "\<bar>x\<bar> < power_int 2 (binade x + 1)"
proof -
  obtain p q where pq: "quotient_of \<bar>x\<bar> = (p, q)" by (cases "quotient_of \<bar>x\<bar>")
  then have q: "0 < q" and x: "\<bar>x\<bar> = of_int p / of_int q"
    by (auto dest: quotient_of_denom_pos quotient_of_div)
  with assms have p: "0 < p"
    by (metis abs_ge_zero divide_eq_0_iff less_eq_rat_def of_int_0_less_iff of_int_eq_0_iff zero_less_abs_iff zero_less_divide_iff not_less_iff_gr_or_eq)
  define k where "k = bitlen p - bitlen q"
  note bp = bitlen_powi_bounds [OF p] and bq = bitlen_powi_bounds [OF q]
  have pos: "(0::rat) < 2 powi n" for n by simp
  have "(2::rat) powi (k - 1) = 2 powi (bitlen p - 1) / 2 powi (bitlen q)"
    by (simp add: k_def power_int_diff)
  also have "\<dots> < \<bar>x\<bar>"
    unfolding x using bp(1) bq(2) q pos by (simp add: frac_less2)
  finally have lo: "(2::rat) powi (k - 1) < \<bar>x\<bar>" .
  have "\<bar>x\<bar> < 2 powi (bitlen p) / 2 powi (bitlen q - 1)"
    unfolding x using bp(2) bq(1) p q pos by (simp add: frac_less)
  also have "\<dots> = (2::rat) powi (k + 1)"
    by (simp add: k_def power_int_diff power_int_add)
  finally have hi: "\<bar>x\<bar> < (2::rat) powi (k + 1)" .
  have b: "binade x = (if 2 powi k \<le> \<bar>x\<bar> then k else k - 1)"
    by (simp add: binade_def pq k_def)
  show "power_int 2 (binade x) \<le> \<bar>x\<bar>" using lo by (simp add: b)
  show "\<bar>x\<bar> < power_int 2 (binade x + 1)" using hi by (auto simp: b)
qed

lemma binade_uminus: "binade (- x) = binade x"
  by (simp add: binade_def)

lemma fl_uminus: "fl (- x) = - fl x"
  by (simp add: fl_def Let_def binade_uminus sgn_minus)

lemma binade_mono:
  assumes "0 < x" "x \<le> y"
  shows "binade x \<le> binade y"
proof (rule ccontr)
  assume "\<not> ?thesis"
  then have "binade y + 1 \<le> binade x" by simp
  then have "(2::rat) powi (binade y + 1) \<le> 2 powi (binade x)"
    by (rule power_int_increasing) simp
  with binade_bounds(1) [of x] binade_bounds(2) [of y] assms show False by simp
qed

lemma fl_pos_bounds:
  assumes "0 < x"
  shows "2 powi (binade x) \<le> fl x" "fl x \<le> 2 powi (binade x + 1)"
proof -
  define s :: rat where "s = 2 powi (binade x - 52)"
  have s: "0 < s" by (simp add: s_def)
  have fl: "fl x = of_int (round_half_even (x / s)) * s"
    using assms by (simp add: fl_def Let_def s_def)
  have b: "2 powi (binade x) = 2 ^ 52 * s" "2 powi (binade x + 1) = 2 ^ 53 * s"
    by (simp_all add: s_def power_int_diff power_int_add)
  from binade_bounds [of x] assms have "2 ^ 52 * s \<le> x" "x \<le> 2 ^ 53 * s"
    by (simp_all add: b)
  with s have "of_int (2 ^ 52) \<le> x / s" "x / s \<le> of_int (2 ^ 53)"
    by (simp_all add: pos_le_divide_eq pos_divide_le_eq)
  then have "round_half_even (of_int (2 ^ 52)) \<le> round_half_even (x / s)"
    "round_half_even (x / s) \<le> round_half_even (of_int (2 ^ 53))"
    by (simp_all only: round_half_even_mono)
  then have "(of_int (2 ^ 52) :: rat) \<le> of_int (round_half_even (x / s))"
    "(of_int (round_half_even (x / s)) :: rat) \<le> of_int (2 ^ 53)"
    unfolding round_half_even_of_int of_int_le_iff .
  with s show "2 powi (binade x) \<le> fl x" "fl x \<le> 2 powi (binade x + 1)"
    unfolding b fl by (simp_all only: mult_le_cancel_right_pos of_int_numeral of_int_power)
qed

lemma fl_pos: "0 < x \<Longrightarrow> 0 < fl x"
  using fl_pos_bounds(1) [of x] by (rule_tac less_le_trans [of _ "2 powi binade x"]) simp_all

lemma fl_eq_0_iff: "fl x = 0 \<longleftrightarrow> x = 0"
proof (cases x "0::rat" rule: linorder_cases)
  case less
  then have "0 < fl (- x)" by (intro fl_pos) simp
  with less show ?thesis by (simp add: fl_uminus)
next
  case equal
  then show ?thesis by (simp add: fl_def)
next
  case greater
  with fl_pos [of x] show ?thesis by simp
qed

lemma fl_mono_pos:
  assumes "0 < x" "x \<le> y"
  shows "fl x \<le> fl y"
proof (cases "binade x = binade y")
  case True
  define s :: rat where "s = 2 powi (binade x - 52)"
  have s: "0 < s" by (simp add: s_def)
  from assms s have "x / s \<le> y / s" by (simp add: divide_right_mono)
  then have "round_half_even (x / s) \<le> round_half_even (y / s)"
    by (rule round_half_even_mono)
  with s have "of_int (round_half_even (x / s)) * s \<le> of_int (round_half_even (y / s)) * s"
    by simp
  with assms True show ?thesis by (simp add: fl_def Let_def s_def)
next
  case False
  with binade_mono [OF assms] have "binade x + 1 \<le> binade y" by simp
  then have "(2::rat) powi (binade x + 1) \<le> 2 powi (binade y)"
    by (rule power_int_increasing) simp
  with fl_pos_bounds(2) [of x] fl_pos_bounds(1) [of y] assms show ?thesis by simp
qed

lemma fl_mono:
  assumes "x \<le> y"
  shows "fl x \<le> fl y"
proof -
  consider "0 < x" | "y < 0" | "x \<le> 0" "0 \<le> y" by linarith
  then show ?thesis
  proof cases
    case 1
    from this assms show ?thesis by (rule fl_mono_pos)
  next
    case 2
    with assms have "fl (- y) \<le> fl (- x)" by (intro fl_mono_pos) simp_all
    then show ?thesis by (simp add: fl_uminus)
  next
    case 3
    have "fl x \<le> 0"
    proof (cases "x = 0")
      case True then show ?thesis by (simp add: fl_def)
    next
      case False
      with 3 have "0 < fl (- x)" by (intro fl_pos) simp
      then show ?thesis by (simp add: fl_uminus)
    qed
    moreover have "0 \<le> fl y"
    proof (cases "y = 0")
      case True then show ?thesis by (simp add: fl_def)
    next
      case False
      with 3 have "0 < fl y" by (intro fl_pos) simp
      then show ?thesis by simp
    qed
    ultimately show ?thesis by simp
  qed
qed

lemma fl_0: "fl 0 = 0" by (simp add: fl_def)
lemma fl_1: "fl 1 = 1" by code_simp
lemma fl_100: "fl 100 = 100" by code_simp



section \<open>Positions\<close>

lemma positions_length: "length (positions getTime unique) = length unique"
  by (simp add: positions_def Let_def)

lemma positions_spec:
  "unique \<noteq> [] \<Longrightarrow> positions getTime unique = map (spec_position getTime unique) unique"
  by (simp add: positions_def spec_position_def Let_def hd_conv_nth last_conv_nth)

lemma positions_nth:
  "i < length unique \<Longrightarrow> positions getTime unique ! i = spec_position getTime unique (unique ! i)"
  by (cases "unique = []") (simp_all add: positions_spec)

lemma Timeline_length: "length (Timeline getTime entries hoveredIndex) = length (uniqueDates entries)"
  by (simp add: Timeline_def Let_def)

lemma Timeline_nth:
  "index < length (uniqueDates entries) \<Longrightarrow>
   Timeline getTime entries hoveredIndex ! index =
     \<lparr>tick_key = id_entry (uniqueDates entries ! index),
      tick_top = Some (positions getTime (uniqueDates entries) ! index),
      tooltip_active = (hoveredIndex = Some index),
      tooltip_text = date (uniqueDates entries ! index),
      button_target = id_entry (uniqueDates entries ! index)\<rparr>"
  by (simp add: Timeline_def Let_def nth_enumerate_eq array_index_def positions_length)

lemma Timeline_tops:
  "map tick_top (Timeline getTime entries hoveredIndex) =
     map Some (positions getTime (uniqueDates entries))"
  by (simp add: positions_length Timeline_length list_eq_iff_nth_eq Timeline_nth)

text \<open>
  Claim C1. For every entry list whose \<open>uniqueDates\<close> sequence is not empty, the
  position of each element of \<open>uniqueDates\<close> is
  \<open>((timestamp(entry) - start) / range) * 100\<close>, where \<open>start\<close> is the timestamp of the
  first element and \<open>range\<close> is the timestamp of the last element minus \<open>start\<close>; and
  when \<open>range\<close> is 0, the position of every element is 0. The arithmetic is that of
  JavaScript numbers on both sides.
\<close>

theorem positions_formula:
  assumes "unique = uniqueDates entries" and "unique \<noteq> []"
    and "start = getTime (rawDate (hd unique))"
    and "range' = number_sub (getTime (rawDate (last unique))) start"
  shows "positions getTime unique = map (spec_position getTime unique) unique
     \<and> (\<forall>i<length unique. positions getTime unique ! i =
           (if strict_equals range' (Finite 0) then Finite 0
            else number_mul
                   (number_div (number_sub (getTime (rawDate (unique ! i))) start) range')
                   (Finite 100)))
     \<and> (strict_equals range' (Finite 0) \<longrightarrow>
          (\<forall>i<length unique. positions getTime unique ! i = Finite 0))"
  using assms(2-4) by (simp add: positions_spec spec_position_def Let_def)

text \<open>
  The witness of C1: the worked example, whose range is not 0, at its second tick, and
  a list of one entry, whose range is 0.
\<close>

theorem positions_formula_witness:
  "uniqueDates example_entries \<noteq> []
   \<and> positions Date_getTime (uniqueDates example_entries) ! 1 =
       number_mul
         (number_div (number_sub (Finite 1719792000000) (Finite 1704067200000))
            (number_sub (Finite 1735689600000) (Finite 1704067200000)))
         (Finite 100)
   \<and> positions Date_getTime (uniqueDates [example_entry ''e1'' ''2024.01.01'' ''2024-01-01'']) ! 0
       = Finite 0"
proof -
  let ?u = "uniqueDates example_entries"
  let ?v = "uniqueDates [example_entry ''e1'' ''2024.01.01'' ''2024-01-01'']"
  have u: "?u \<noteq> []" and v: "?v \<noteq> []" by code_simp+
  have lu: "1 < length ?u" and lv: "0 < length ?v" by code_simp+
  have ru: "\<not> strict_equals (number_sub (Date_getTime (rawDate (last ?u))) (Date_getTime (rawDate (hd ?u)))) (Finite 0)"
    by code_simp
  have rv: "strict_equals (number_sub (Date_getTime (rawDate (last ?v))) (Date_getTime (rawDate (hd ?v)))) (Finite 0)"
    by code_simp
  have tu: "Date_getTime (rawDate (?u ! 1)) = Finite 1719792000000"
    "Date_getTime (rawDate (hd ?u)) = Finite 1704067200000"
    "Date_getTime (rawDate (last ?u)) = Finite 1735689600000"
    by code_simp+
  from positions_formula [OF refl u refl refl, of Date_getTime] lu ru
  have "positions Date_getTime ?u ! 1 =
      number_mul
         (number_div (number_sub (Date_getTime (rawDate (?u ! 1))) (Date_getTime (rawDate (hd ?u))))
            (number_sub (Date_getTime (rawDate (last ?u))) (Date_getTime (rawDate (hd ?u)))))
         (Finite 100)"
    by meson
  moreover from positions_formula [OF refl v refl refl, of Date_getTime] lv rv
  have "positions Date_getTime ?v ! 0 = Finite 0"
    by blast
  ultimately show ?thesis using u by (simp only: tu) simp
qed


lemma spec_position_first:
  assumes "unique \<noteq> []" "getTime (rawDate (hd unique)) = Finite s"
    "getTime (rawDate (last unique)) = Finite e" "s \<noteq> e"
  shows "spec_position getTime unique (hd unique) = Finite 0"
    and "spec_position getTime unique (last unique) = Finite 100"
proof -
  from assms(4) have r: "fl (e - s) \<noteq> 0" by (simp add: fl_eq_0_iff)
  then show "spec_position getTime unique (hd unique) = Finite 0"
    by (simp add: spec_position_def assms fl_0)
  from r show "spec_position getTime unique (last unique) = Finite 100"
    by (simp add: spec_position_def assms fl_1 fl_100)
qed

text \<open>
  Claim C3, as amended. For every entry list whose first and last unique-date entries
  have valid timestamps that differ, the position of the first unique-date tick is 0 and
  that of the last is 100 (and there are at least two unique dates). Two distinct display
  dates alone do not give this: the display date and the timestamp are separate fields,
  and when the timestamps of the first and the last unique date coincide, the guard
  \<^verbatim>\<open>if (range === 0) return 0\<close> makes every position 0.
\<close>

theorem positions_first_last:
  assumes "unique = uniqueDates entries" and "unique \<noteq> []"
    and "getTime (rawDate (hd unique)) = Finite s"
    and "getTime (rawDate (last unique)) = Finite e"
    and "s \<noteq> e"
  shows "hd (positions getTime unique) = Finite 0
     \<and> last (positions getTime unique) = Finite 100
     \<and> 2 \<le> length unique"
proof -
  have "hd unique \<noteq> last unique" using assms(3-5) by auto
  with assms(2) have "2 \<le> length unique"
    by (cases unique) (auto simp: Suc_le_eq)
  moreover have "hd (positions getTime unique) = Finite 0"
    using assms(2) spec_position_first(1) [OF assms(2-5)]
    by (simp add: positions_spec hd_map)
  moreover have "last (positions getTime unique) = Finite 100"
    using assms(2) spec_position_first(2) [OF assms(2-5)]
    by (simp add: positions_spec last_map)
  ultimately show ?thesis by simp
qed


text \<open>
  The counterexample to C3 as stated: two entries with the distinct display dates
  \<open>2024.01.01\<close> and \<open>2024.01.02\<close> and the same timestamp; the position of the last
  tick is 0, not 100.
\<close>

theorem positions_last_counterexample:
  "map date (uniqueDates same_time_entries) = [''2024.01.01'', ''2024.01.02'']
   \<and> last (positions Date_getTime (uniqueDates same_time_entries)) = Finite 0
   \<and> last (positions Date_getTime (uniqueDates same_time_entries)) \<noteq> Finite 100"
  by code_simp

text \<open>
  The witness of C3 as amended: the worked example, from \<open>2024-01-01\<close> to
  \<open>2025-01-01\<close>.
\<close>

theorem positions_first_last_witness:
  "hd (positions Date_getTime (uniqueDates example_entries)) = Finite 0
   \<and> last (positions Date_getTime (uniqueDates example_entries)) = Finite 100
   \<and> 2 \<le> length (uniqueDates example_entries)"
proof -
  let ?u = "uniqueDates example_entries"
  have u: "?u \<noteq> []" by code_simp
  have s: "Date_getTime (rawDate (hd ?u)) = Finite 1704067200000" by code_simp
  have e: "Date_getTime (rawDate (last ?u)) = Finite 1735689600000" by code_simp
  have ne: "(1704067200000::rat) \<noteq> 1735689600000" by simp
  from positions_first_last [OF refl u s e ne] show ?thesis .
qed

lemma uniqueDates_filter_subset:
  "set (uniqueDates_filter seen entries) \<subseteq> set entries"
  by (induction entries arbitrary: seen) auto

lemma uniqueDates_filter_sorted_wrt:
  "sorted_wrt P entries \<Longrightarrow> sorted_wrt P (uniqueDates_filter seen entries)"
proof (induction entries arbitrary: seen)
  case Nil
  show ?case by simp
next
  case (Cons entry entries)
  then show ?case
    using uniqueDates_filter_subset [of "insert (date entry) seen" entries] by auto
qed

lemma less_equals_Finite:
  "valid_time a \<Longrightarrow> valid_time b \<Longrightarrow> less_equals a b \<Longrightarrow> \<exists>x y. a = Finite x \<and> b = Finite y \<and> x \<le> y"
  by (cases a; cases b) (simp_all add: valid_time_def)

lemma percent_position:
  assumes "s \<le> t" "t \<le> e"
  shows "percent (if strict_equals (number_sub (Finite e) (Finite s)) (Finite 0) then Finite 0
           else number_mul
                  (number_div (number_sub (Finite t) (Finite s)) (number_sub (Finite e) (Finite s)))
                  (Finite 100))"
proof (cases "fl (e - s) = 0")
  case True
  then show ?thesis by simp
next
  case False
  define r where "r = fl (e - s)"
  define d where "d = fl (t - s)"
  have "fl 0 \<le> r" unfolding r_def using assms by (intro fl_mono) simp
  with False have r: "0 < r" by (simp add: fl_0 r_def)
  have "fl 0 \<le> d" unfolding d_def using assms by (intro fl_mono) simp
  then have d0: "0 \<le> d" by (simp add: fl_0)
  have dr: "d \<le> r" unfolding d_def r_def using assms by (intro fl_mono) simp
  define q where "q = fl (d / r)"
  have "fl 0 \<le> q" unfolding q_def using d0 r by (intro fl_mono) simp
  then have q0: "0 \<le> q" by (simp add: fl_0)
  have "q \<le> fl 1" unfolding q_def using dr r by (intro fl_mono) simp
  then have q1: "q \<le> 1" by (simp add: fl_1)
  have "fl 0 \<le> fl (q * 100)" using q0 by (intro fl_mono) simp
  then have p0: "0 \<le> fl (q * 100)" by (simp add: fl_0)
  have "fl (q * 100) \<le> fl 100" using q1 by (intro fl_mono) simp
  then have p1: "fl (q * 100) \<le> 100" by (simp add: fl_100)
  from False r p0 p1 show ?thesis
    by (simp add: r_def [symmetric] d_def [symmetric] q_def [symmetric])
qed

lemma chronological_percent:
  assumes v: "list_all (\<lambda>entry. valid_time (getTime (rawDate entry))) unique"
    and s: "sorted_wrt (\<lambda>a b. less_equals (getTime (rawDate a)) (getTime (rawDate b))) unique"
  shows "list_all percent (positions getTime unique)"
proof (cases "unique = []")
  case True
  then show ?thesis by (simp add: positions_def)
next
  case False
  let ?n = "length unique"
  have n: "0 < ?n" using False by simp
  have le: "\<exists>x y. getTime (rawDate (unique ! i)) = Finite x \<and> getTime (rawDate (unique ! j)) = Finite y \<and> x \<le> y"
    if "i \<le> j" "j < ?n" for i j
  proof (cases "i = j")
    case True
    from v that have "valid_time (getTime (rawDate (unique ! j)))"
      by (simp add: list_all_length)
    with True show ?thesis by (cases "getTime (rawDate (unique ! j))") (simp_all add: valid_time_def)
  next
    case False
    with that have ij: "i < j" by simp
    with s that have "less_equals (getTime (rawDate (unique ! i))) (getTime (rawDate (unique ! j)))"
      by (simp add: sorted_wrt_iff_nth_less)
    moreover from v that have "valid_time (getTime (rawDate (unique ! i)))" "valid_time (getTime (rawDate (unique ! j)))"
      by (simp_all add: list_all_length)
    ultimately show ?thesis by (intro less_equals_Finite)
  qed
  have "percent (positions getTime unique ! i)" if i: "i < ?n" for i
  proof -
    from le [of 0 i] i obtain s t where s: "getTime (rawDate (hd unique)) = Finite s"
      and t: "getTime (rawDate (unique ! i)) = Finite t" and st: "s \<le> t"
      by (auto simp: hd_conv_nth [OF False])
    have "i \<le> ?n - 1" "?n - 1 < ?n" using i by simp_all
    from le [OF this] t obtain e where e: "getTime (rawDate (last unique)) = Finite e"
      and te: "t \<le> e"
      by (auto simp: last_conv_nth [OF False])
    from percent_position [OF st te] show ?thesis
      by (simp only: positions_nth [OF i] spec_position_def Let_def s t e)
  qed
  then show ?thesis by (simp add: list_all_length positions_length)
qed

text \<open>
  Claim C4. When every timestamp parses to a point in time and the entries are in
  chronological order, every position, and so the \<open>top\<close> of every rendered tick, is a
  finite number between 0 and 100, both included. This holds of the rounded binary64
  results, not only of the exact quotients.
\<close>

theorem positions_percent:
  assumes "chronological getTime entries"
  shows "list_all percent (positions getTime (uniqueDates entries))
     \<and> list_all (\<lambda>t. case tick_top t of None \<Rightarrow> False | Some p \<Rightarrow> percent p)
          (Timeline getTime entries hoveredIndex)"
proof -
  from assms have "list_all (\<lambda>entry. valid_time (getTime (rawDate entry))) (uniqueDates entries)"
    using uniqueDates_filter_subset [of "{}" entries]
    by (auto simp: chronological_def uniqueDates_def list_all_iff)
  moreover from assms have "sorted_wrt (\<lambda>a b. less_equals (getTime (rawDate a)) (getTime (rawDate b))) (uniqueDates entries)"
    unfolding uniqueDates_def chronological_def by (intro uniqueDates_filter_sorted_wrt) simp
  ultimately have pos: "list_all percent (positions getTime (uniqueDates entries))"
    by (rule chronological_percent)
  have "list_all (\<lambda>t. case tick_top t of None \<Rightarrow> False | Some p \<Rightarrow> percent p)
          (Timeline getTime entries hoveredIndex)
      = list_all (\<lambda>top. case top of None \<Rightarrow> False | Some p \<Rightarrow> percent p)
          (map tick_top (Timeline getTime entries hoveredIndex))"
    by (simp add: list_all_iff)
  also have "\<dots> = list_all percent (positions getTime (uniqueDates entries))"
    unfolding Timeline_tops by (simp add: list_all_iff)
  finally show ?thesis using pos by simp
qed

text \<open>
  The witness of C4: the worked example is in chronological order.
\<close>

theorem positions_percent_witness:
  "chronological Date_getTime example_entries
   \<and> list_all percent (positions Date_getTime (uniqueDates example_entries))"
proof -
  have c: "chronological Date_getTime example_entries" by code_simp
  from positions_percent [OF c] c show ?thesis by simp
qed

text \<open>
  Claim C6, as amended. For the entries with the ISO timestamps \<open>2024-01-01\<close>,
  \<open>2024-01-01\<close>, \<open>2024-07-01\<close> and \<open>2025-01-01\<close>, \<open>uniqueDates\<close> has 3 entries and the
  positions are 0, the binary64 number \<open>6998421552095545 / 2 ^ 47\<close>, which is
  \<open>49.72677595628415\<close>, and 100: approximately \<open>[0, 49.7, 100]\<close>. The year 2024 is a
  leap year, so the elapsed time is 182 days out of 366.
\<close>

theorem positions_example:
  "length (uniqueDates example_entries) = 3
   \<and> positions Date_getTime (uniqueDates example_entries) =
       [Finite 0, Finite (6998421552095545 / 140737488355328), Finite 100]
   \<and> list_all2 approximately (positions Date_getTime (uniqueDates example_entries))
       [0, 497 / 10, 100]"
  by code_simp

text \<open>
  The counterexample to C6 as stated: the positions are not \<open>[0, 49.6, 100]\<close> to one
  decimal place (181 days out of 365 would give \<open>49.59\<close>).
\<close>

theorem positions_example_counterexample:
  "\<not> list_all2 approximately (positions Date_getTime (uniqueDates example_entries))
       [0, 496 / 10, 100]"
  by code_simp


section \<open>Rendered articles\<close>

text \<open>
  Claim C5. For every entry list, the renderer produces one article per input entry, in
  the input order and without deduplication: the articles are the image of the entry list
  under \<open>render_article\<close>, so their number is the number of entries and their ids and
  dates are those of the entries, position by position, duplicates included.
\<close>

theorem render_articles_all:
  "length (render_articles entries) = length entries
   \<and> render_articles entries = map render_article entries
   \<and> map article_id (render_articles entries) = map id_entry entries
   \<and> map article_date (render_articles entries) = map date entries"
  by (simp add: render_articles_def render_article_def comp_def)

section \<open>The navigator\<close>

lemma filter_enumerate_index:
  "filter (\<lambda>p. fst p = k) (enumerate n xs) =
     (if n \<le> k \<and> k < n + length xs then [(k, xs ! (k - n))] else [])"
  by (induction xs arbitrary: n) (auto simp: nth_Cons' Suc_diff_le)

lemma Timeline_active:
  "length (filter tooltip_active (Timeline getTime entries hoveredIndex)) \<le> 1"
proof (cases hoveredIndex)
  case None
  then show ?thesis by (simp add: Timeline_def Let_def filter_map comp_def case_prod_unfold)
next
  case (Some k)
  have "(\<lambda>p. k = fst p) = (\<lambda>p :: nat \<times> BlockEntry. fst p = k)" by auto
  with Some show ?thesis
    by (simp add: Timeline_def Let_def filter_map comp_def case_prod_unfold filter_enumerate_index)
qed

lemma run_two:
  "run getTime entries hoveredIndex [ev, ev'] =
     (let (h, calls) = dispatch (Timeline getTime entries hoveredIndex) hoveredIndex ev;
          (h', calls') = dispatch (Timeline getTime entries h) h ev'
      in (h', calls @ calls'))"
  by (simp add: Let_def split: prod.splits)

text \<open>
  Claim C7. The hover state starts as none; a pointer-enter on a rendered tick \<open>i\<close> sets
  \<open>hoveredIndex\<close> to \<open>i\<close> whatever it was before, so that entering \<open>j\<close> after \<open>i\<close> leaves
  \<open>j\<close> hovered; a pointer-leave resets it to none; the tooltip of tick \<open>k\<close> is active
  exactly when \<open>hoveredIndex\<close> is \<open>k\<close>; and at most one tooltip is active, in every state
  and so after every run of events from the initial state.
\<close>

theorem hover_state:
  assumes "ticks = Timeline getTime entries hoveredIndex"
    and "now = fst (run getTime entries initial_hoveredIndex evs)"
  shows "initial_hoveredIndex = None
     \<and> (i < length ticks \<longrightarrow> dispatch ticks hoveredIndex (MouseEnter i) = (Some i, []))
     \<and> (i < length ticks \<longrightarrow> dispatch ticks hoveredIndex (MouseLeave i) = (None, []))
     \<and> (i < length ticks \<longrightarrow> j < length ticks \<longrightarrow>
          fst (run getTime entries hoveredIndex [MouseEnter i, MouseEnter j]) = Some j)
     \<and> (\<forall>k<length ticks. tooltip_active (ticks ! k) \<longleftrightarrow> hoveredIndex = Some k)
     \<and> length (filter tooltip_active ticks) \<le> 1
     \<and> length (filter tooltip_active (Timeline getTime entries now)) \<le> 1"
proof -
  have "fst (run getTime entries hoveredIndex [MouseEnter i, MouseEnter j]) = Some j"
    if "i < length ticks" "j < length ticks"
    using that by (simp add: run_two assms(1) Timeline_length)
  moreover have "tooltip_active (ticks ! k) \<longleftrightarrow> hoveredIndex = Some k" if "k < length ticks" for k
    using that by (simp add: assms(1) Timeline_length Timeline_nth)
  moreover note Timeline_active [of getTime entries hoveredIndex] Timeline_active [of getTime entries now]
  ultimately show ?thesis
    by (simp add: initial_hoveredIndex_def assms(1))
qed

text \<open>
  The witness of C7: the three ticks of the worked example, with tick 0 hovered.
\<close>

theorem hover_state_witness:
  "dispatch (Timeline Date_getTime example_entries (Some 0)) (Some 0) (MouseEnter 1) = (Some 1, [])
   \<and> dispatch (Timeline Date_getTime example_entries (Some 0)) (Some 0) (MouseLeave 1) = (None, [])
   \<and> fst (run Date_getTime example_entries (Some 0) [MouseEnter 1, MouseEnter 2]) = Some 2
   \<and> tooltip_active (Timeline Date_getTime example_entries (Some 0) ! 0)
   \<and> \<not> tooltip_active (Timeline Date_getTime example_entries (Some 0) ! 1)"
proof -
  let ?ticks = "Timeline Date_getTime example_entries (Some 0)"
  have l: "0 < length ?ticks" "1 < length ?ticks" "2 < length ?ticks" by code_simp+
  have ne: "Some (0::nat) \<noteq> Some 1" by simp
  from hover_state [OF refl refl, where getTime = Date_getTime and entries = example_entries
      and hoveredIndex = "Some 0" and i = 1 and j = 2 and evs = "[]"] l ne
  show ?thesis by simp
qed

text \<open>
  Claim C8. Activating the rendered tick of index \<open>index\<close>, whose entry has the id \<open>e\<close>,
  calls \<open>onScrollTo\<close> exactly once, with the argument \<open>e\<close>, and changes nothing else:
  \<open>hoveredIndex\<close> is what it was, and so are the ticks rendered.
\<close>

theorem tick_activation:
  assumes "index < length (uniqueDates entries)"
    and "e = id_entry (uniqueDates entries ! index)"
    and "ticks = Timeline getTime entries hoveredIndex"
  shows "button_target (ticks ! index) = e
     \<and> dispatch ticks hoveredIndex (Click index) = (hoveredIndex, [e])
     \<and> Timeline getTime entries (fst (dispatch ticks hoveredIndex (Click index))) = ticks"
  using assms by (simp add: Timeline_length Timeline_nth)

text \<open>
  The witness of C8: clicking the second tick of the worked example calls
  \<open>onScrollTo\<close> with \<open>e3\<close>, once.
\<close>

theorem tick_activation_witness:
  "dispatch (Timeline Date_getTime example_entries None) None (Click 1) = (None, [''e3''])"
proof -
  have l: "1 < length (uniqueDates example_entries)" by code_simp
  have e: "''e3'' = id_entry (uniqueDates example_entries ! 1)" by code_simp
  from tick_activation [OF l e refl] show ?thesis by blast
qed

text \<open>
  Claim C10. For every entry list, \<open>positions\<close> has the length of \<open>uniqueDates\<close>, as
  has the list of rendered ticks, and the read \<^verbatim>\<open>positions[index]\<close> of every rendered
  tick is defined: it is the position at that index.
\<close>

theorem positions_defined:
  "length (positions getTime (uniqueDates entries)) = length (uniqueDates entries)
   \<and> length (Timeline getTime entries hoveredIndex) = length (uniqueDates entries)
   \<and> map tick_top (Timeline getTime entries hoveredIndex) =
       map Some (positions getTime (uniqueDates entries))"
  by (simp only: positions_length Timeline_length Timeline_tops)

section \<open>Scrolling to an entry\<close>

lemma handleScrollTo_never_throws: "handleScrollTo document scrollRef_current i \<noteq> Inl e"
  by (auto simp: handleScrollTo_def scrollIntoView_def Let_def split: option.splits)

text \<open>
  Claim C9, as amended. For every id, if no element of the document, rendered anchor or
  other, has that id, then \<open>handleScrollTo\<close> finds no element, performs no scroll and
  does not throw: its result is the empty list of scrolls. It has no state to change.
  The absence of a rendered anchor alone does not give this: the lookup of line 126 is
  over the whole document, and an element of the host page with the id is scrolled to.
\<close>

theorem handleScrollTo_missing:
  assumes "i \<notin> set (map element_id document)"
  shows "getElementById document i = None
     \<and> handleScrollTo document scrollRef_current i = Inr []"
proof -
  from assms have "getElementById document i = None"
    by (auto simp: getElementById_def find_None_iff)
  then show ?thesis by (simp add: handleScrollTo_def)
qed

text \<open>
  The counterexample to C9 as stated: no entry of the worked example, and so no rendered
  anchor, has the id \<open>root\<close>, yet with the host element \<open>root\<close> in the document the
  call scrolls to that element.
\<close>

theorem handleScrollTo_anchor_counterexample:
  "''root'' \<notin> set (map id_entry example_entries)
   \<and> ''root'' \<notin> set (map element_id (article_elements example_entries))
   \<and> handleScrollTo (host_document example_entries) (Some ()) ''root'' =
       Inr [ScrollIntoView \<lparr>element_id = ''root''\<rparr> ''smooth'' ''start'']
   \<and> handleScrollTo (host_document example_entries) (Some ()) ''root'' \<noteq> Inr []"
  by code_simp

text \<open>
  The witness of C9 as amended: the id \<open>e9\<close> in the document of the articles of the
  worked example.
\<close>

theorem handleScrollTo_missing_witness:
  "''e9'' \<notin> set (map element_id (article_elements example_entries))
   \<and> handleScrollTo (article_elements example_entries) (Some ()) ''e9'' = Inr []"
proof -
  have m: "''e9'' \<notin> set (map element_id (article_elements example_entries))" by code_simp
  from handleScrollTo_missing [OF m] m show ?thesis by blast
qed

end
